theory Spec2Isabelle
  imports Complex_Main
begin

section \<open>Time series modelling notebook: feature settings and best-model selection\<close>

text \<open>
  The repository is one notebook, \<^verbatim>\<open>02_Time_Series_Modeling.ipynb\<close>, that drives a hosted
  modelling service through the \<^verbatim>\<open>datarobot\<close> client package. Two of its cells compute
  something locally: the cell that builds the known-in-advance feature settings and the
  partitioning specification, and the cell that picks the best model of the leaderboard.
  Both are embedded here. Everything else the notebook does is a call into the client
  package, whose code is not part of the repository.
\<close>

subsection \<open>Python values and exceptions\<close>

text \<open>
  The exceptions the two cells can raise: a dictionary subscript on a missing key
  (\<^verbatim>\<open>KeyError\<close>, with the key), \<^verbatim>\<open>min\<close> on an empty sequence (\<^verbatim>\<open>ValueError\<close>), and an
  ordering comparison that involves \<^verbatim>\<open>None\<close> (\<^verbatim>\<open>TypeError\<close> in Python 3).
\<close>

datatype error = KeyError string | ValueError | TypeError

text \<open>
  A score slot of the leaderboard holds a number or \<^verbatim>\<open>None\<close> (the slot has not been
  computed): \<open>Some v\<close> or \<open>None\<close>. Finite floats are ordered as the reals they denote, so
  a number is a \<^typ>\<open>real\<close>; NaN is outside this model.
\<close>

type_synonym score = "real option"

text \<open>
  Truth value of a score slot in a condition: \<^verbatim>\<open>None\<close> is false, a number is false
  exactly when it equals zero.
\<close>

fun truthy :: "score \<Rightarrow> bool" where
  "truthy None = False"
| "truthy (Some v) = (v \<noteq> 0)"

text \<open>
  \<^verbatim>\<open>a < b\<close> on two score slots: numbers compare as numbers, and a comparison with
  \<^verbatim>\<open>None\<close> on either side raises.
\<close>

fun py_lt :: "score \<Rightarrow> score \<Rightarrow> error + bool" where
  "py_lt (Some a) (Some b) = Inr (a < b)"
| "py_lt _ _ = Inl TypeError"

subsection \<open>Known-in-advance features and the partitioning specification\<close>

text \<open>
  Modelled from the spec: the classes \<^verbatim>\<open>FeatureSettings\<close> and
  \<^verbatim>\<open>DatetimePartitioningSpecification\<close> are declared in the client package; the notebook
  only constructs them. They are records of the constructor arguments the notebook passes
  (the spec's \<^verbatim>\<open>FeatureSetting{name, known_in_advance}\<close> and \<^verbatim>\<open>PartitioningSpec\<close>).
\<close>

record FeatureSettings =
  feature_name :: string
  fs_known_in_advance :: bool

record DatetimePartitioningSpecification =
  datetime_partition_column :: string
  multiseries_id_columns :: "string list"
  use_time_series :: bool
  dps_feature_settings :: "FeatureSettings list"

text \<open>
  \<^verbatim>\<open>
  known_in_advance = ['Marketing', 'Near_Xmas', 'Near_BlackFriday',
                      'Holiday', 'DestinationEvent']
  feature_settings = [dr.FeatureSettings(feat_name,
                                         known_in_advance=True)
                      for feat_name in known_in_advance]
  \<close>
\<close>

definition known_in_advance :: "string list" where
  "known_in_advance =
     [''Marketing'', ''Near_Xmas'', ''Near_BlackFriday'', ''Holiday'', ''DestinationEvent'']"

definition feature_settings_of :: "string list \<Rightarrow> FeatureSettings list" where
  "feature_settings_of names =
     map (\<lambda>feat_name. \<lparr>feature_name = feat_name, fs_known_in_advance = True\<rparr>) names"

definition feature_settings :: "FeatureSettings list" where
  "feature_settings = feature_settings_of known_in_advance"

text \<open>
  \<^verbatim>\<open>
  time_partition = dr.DatetimePartitioningSpecification(
      datetime_partition_column='Date',
      multiseries_id_columns=['Store'],
      use_time_series=True,
      feature_settings=feature_settings,
  )
  \<close>
\<close>

definition time_partition :: DatetimePartitioningSpecification where
  "time_partition =
     \<lparr>datetime_partition_column = ''Date'',
      multiseries_id_columns = [''Store''],
      use_time_series = True,
      dps_feature_settings = feature_settings\<rparr>"

subsection \<open>The leaderboard and the best model\<close>

text \<open>
  A model of the leaderboard, as far as the cell reads it: its identifier, its
  \<^verbatim>\<open>model_type\<close>, and \<^verbatim>\<open>metrics\<close>, a dictionary from metric name to a dictionary from
  slot name (\<^verbatim>\<open>'validation'\<close>, \<^verbatim>\<open>'crossValidation'\<close>, \<^verbatim>\<open>'holdout'\<close>, ...) to a score.
\<close>

record model =
  model_id :: string
  model_type :: string
  metrics :: "string \<rightharpoonup> (string \<rightharpoonup> score)"

text \<open>
  \<^verbatim>\<open>m.metrics[proj.metric]['crossValidation']\<close>: two subscripts, each raising
  \<^verbatim>\<open>KeyError\<close> on a missing key.
\<close>

definition cv_score :: "string \<Rightarrow> model \<Rightarrow> error + score" where
  "cv_score metric m =
     (case metrics m metric of
        None \<Rightarrow> Inl (KeyError metric)
      | Some slots \<Rightarrow>
          (case slots ''crossValidation'' of
             None \<Rightarrow> Inl (KeyError ''crossValidation'')
           | Some v \<Rightarrow> Inr v))"

text \<open>
  \<^verbatim>\<open>
  valid_models = [m for m in lb if
                  m.metrics[proj.metric]['crossValidation']]
  \<close>
  The comprehension walks the leaderboard in order; the first subscript that raises ends
  it, and a model is kept when its score slot is true as a condition.
\<close>

fun valid_models :: "string \<Rightarrow> model list \<Rightarrow> error + model list" where
  "valid_models metric [] = Inr []"
| "valid_models metric (m # lb) =
     (case cv_score metric m of
        Inl e \<Rightarrow> Inl e
      | Inr v \<Rightarrow>
          (case valid_models metric lb of
             Inl e \<Rightarrow> Inl e
           | Inr ms \<Rightarrow> Inr (if truthy v then m # ms else ms)))"

text \<open>
  The builtin \<^verbatim>\<open>min(iterable, key=f)\<close>: it keeps the first item and its key, and replaces
  them by a later item only when that item's key is strictly less; the key function and
  the comparison may raise; an empty iterable raises \<^verbatim>\<open>ValueError\<close>.
\<close>

fun min_loop :: "('a \<Rightarrow> error + score) \<Rightarrow> 'a \<Rightarrow> score \<Rightarrow> 'a list \<Rightarrow> error + 'a" where
  "min_loop key minitem minval [] = Inr minitem"
| "min_loop key minitem minval (x # xs) =
     (case key x of
        Inl e \<Rightarrow> Inl e
      | Inr v \<Rightarrow>
          (case py_lt v minval of
             Inl e \<Rightarrow> Inl e
           | Inr lt \<Rightarrow> if lt then min_loop key x v xs else min_loop key minitem minval xs))"

fun py_min :: "('a \<Rightarrow> error + score) \<Rightarrow> 'a list \<Rightarrow> error + 'a" where
  "py_min key [] = Inl ValueError"
| "py_min key (x # xs) =
     (case key x of
        Inl e \<Rightarrow> Inl e
      | Inr v \<Rightarrow> min_loop key x v xs)"

text \<open>
  \<^verbatim>\<open>
  lb = proj.get_models()
  valid_models = [...]
  best_model = min(valid_models,
                   key=lambda m: m.metrics[proj.metric]['crossValidation'])
  \<close>
  The leaderboard \<open>lb\<close> and the project's metric are what the service returned.
\<close>

definition best_model :: "string \<Rightarrow> model list \<Rightarrow> error + model" where
  "best_model metric lb =
     (case valid_models metric lb of
        Inl e \<Rightarrow> Inl e
      | Inr ms \<Rightarrow> py_min (cv_score metric) ms)"

text \<open>
  A leaderboard entry for the concrete cases below: a model whose only metric is
  \<open>metric\<close>, with the given cross-validation slot.
\<close>

definition mk_model :: "string \<Rightarrow> string \<Rightarrow> score \<Rightarrow> model" where
  "mk_model i metric cv =
     \<lparr>model_id = i, model_type = ''Regressor'',
      metrics = [metric \<mapsto> [''crossValidation'' \<mapsto> cv]]\<rparr>"

text \<open>
  Vocabulary for the statements below: a model passes the filter when its lookup succeeds
  with a true score; \<open>cv_of\<close> reads the number of such a model.
\<close>

definition eligible :: "string \<Rightarrow> model \<Rightarrow> bool" where
  "eligible metric m = (case cv_score metric m of Inl e \<Rightarrow> False | Inr v \<Rightarrow> truthy v)"

definition cv_of :: "string \<Rightarrow> model \<Rightarrow> real" where
  "cv_of metric m = (case cv_score metric m of Inr (Some v) \<Rightarrow> v | _ \<Rightarrow> 0)"

section \<open>Properties\<close>

subsection \<open>Feature settings\<close>

lemma length_feature_settings_of: "length (feature_settings_of names) = length names"
  by (simp add: feature_settings_of_def)

lemma names_feature_settings_of: "map feature_name (feature_settings_of names) = names"
  by (simp add: feature_settings_of_def comp_def)

lemma flags_feature_settings_of:
  "map fs_known_in_advance (feature_settings_of names) = replicate (length names) True"
  by (induction names) (simp_all add: feature_settings_of_def)

text \<open>
  Claim C10. For the five feature names of the notebook, \<open>feature_settings\<close> holds one
  setting per name, in the order of the names, each with the known-in-advance flag set;
  and the partitioning specification carries exactly this list, the datetime column
  \<^verbatim>\<open>'Date'\<close>, the multiseries identifier columns \<^verbatim>\<open>['Store']\<close> and \<^verbatim>\<open>use_time_series\<close> true.
\<close>

theorem feature_settings_and_partition:
  "feature_settings =
     [\<lparr>feature_name = ''Marketing'', fs_known_in_advance = True\<rparr>,
      \<lparr>feature_name = ''Near_Xmas'', fs_known_in_advance = True\<rparr>,
      \<lparr>feature_name = ''Near_BlackFriday'', fs_known_in_advance = True\<rparr>,
      \<lparr>feature_name = ''Holiday'', fs_known_in_advance = True\<rparr>,
      \<lparr>feature_name = ''DestinationEvent'', fs_known_in_advance = True\<rparr>]
   \<and> length feature_settings = length known_in_advance
   \<and> map feature_name feature_settings = known_in_advance
   \<and> map fs_known_in_advance feature_settings = [True, True, True, True, True]
   \<and> datetime_partition_column time_partition = ''Date''
   \<and> multiseries_id_columns time_partition = [''Store'']
   \<and> use_time_series time_partition = True
   \<and> dps_feature_settings time_partition = feature_settings"
  by (simp add: feature_settings_def feature_settings_of_def known_in_advance_def
      time_partition_def)

subsection \<open>Best-model selection\<close>

lemma valid_models_all_absent:
  "\<forall>m\<in>set lb. cv_score metric m = Inr None \<Longrightarrow> valid_models metric lb = Inr []"
  by (induction lb) simp_all

text \<open>
  Claim C2. When every model of the leaderboard has an absent cross-validation score
  for the project's metric (the empty leaderboard included), the selection fails: it
  raises the \<^verbatim>\<open>ValueError\<close> of \<^verbatim>\<open>min\<close> on an empty sequence, which is the condition the
  specification names NoEligibleModel, and returns no model.
\<close>

theorem best_model_no_eligible:
  assumes "\<forall>m\<in>set lb. cv_score metric m = Inr None"
  shows "best_model metric lb = Inl ValueError"
  using valid_models_all_absent [OF assms] by (simp add: best_model_def)

text \<open>The specification's example: the single model A with an absent score.\<close>

theorem best_model_no_eligible_witness:
  "cv_score ''RMSE'' (mk_model ''A'' ''RMSE'' None) = Inr None
   \<and> best_model ''RMSE'' [mk_model ''A'' ''RMSE'' None] = Inl ValueError"
proof -
  have c: "cv_score ''RMSE'' (mk_model ''A'' ''RMSE'' None) = Inr None"
    by (simp add: cv_score_def mk_model_def)
  then have h: "\<forall>m\<in>set [mk_model ''A'' ''RMSE'' None]. cv_score ''RMSE'' m = Inr None"
    by simp
  show ?thesis using c best_model_no_eligible [OF h] by simp
qed

text \<open>
  When the comprehension succeeds, its result is the leaderboard filtered in order; it
  succeeds when every subscript does, and otherwise raises a \<^verbatim>\<open>KeyError\<close>.
\<close>

lemma valid_models_filter:
  "valid_models metric lb = Inr vs \<Longrightarrow> vs = filter (eligible metric) lb"
  by (induction lb arbitrary: vs) (auto simp: eligible_def split: sum.splits if_splits)

lemma valid_models_total:
  "\<forall>m\<in>set lb. \<exists>v. cv_score metric m = Inr v \<Longrightarrow>
   valid_models metric lb = Inr (filter (eligible metric) lb)"
  by (induction lb) (auto simp: eligible_def split: sum.splits)

lemma valid_models_error:
  "valid_models metric lb = Inl e \<Longrightarrow> \<exists>k. e = KeyError k"
  by (induction lb) (auto simp: cv_score_def split: sum.splits option.splits)

text \<open>
  Whenever no model passes the filter, whether its slot is \<^verbatim>\<open>None\<close>, zero, or a subscript
  raises, the selection ends in an exception and returns no model.
\<close>

lemma best_model_none_passes:
  assumes "\<forall>m\<in>set lb. \<not> eligible metric m"
  shows "\<exists>e. best_model metric lb = Inl e"
proof (cases "valid_models metric lb")
  case (Inl e)
  then show ?thesis by (simp add: best_model_def)
next
  case (Inr vs)
  then have "vs = filter (eligible metric) lb" by (rule valid_models_filter)
  with assms have "vs = []" by simp
  with Inr show ?thesis by (simp add: best_model_def)
qed

subsection \<open>The minimum is the first of the least scores that pass the filter\<close>

lemma eligible_cv_score:
  "eligible metric m \<Longrightarrow> cv_score metric m = Inr (Some (cv_of metric m))"
  by (cases "cv_score metric m") (auto simp: eligible_def cv_of_def elim: truthy.elims)

lemma eligible_nonzero: "eligible metric m \<Longrightarrow> cv_of metric m \<noteq> 0"
  by (cases "cv_score metric m") (auto simp: eligible_def cv_of_def elim: truthy.elims)

text \<open>
  The loop of \<^verbatim>\<open>min\<close>, started on \<open>best\<close>: either \<open>best\<close> survives and nothing after it
  is smaller, or the result sits later in the list, is smaller than \<open>best\<close> and than
  everything before it, and nothing after it is smaller.
\<close>

lemma min_loop_stable:
  assumes "\<forall>x\<in>set (best # xs). key x = Inr (Some (f x))"
  shows "\<exists>b. min_loop key best (Some (f best)) xs = Inr b \<and>
           ((b = best \<and> (\<forall>x\<in>set xs. f best \<le> f x)) \<or>
            (\<exists>pre post. xs = pre @ b # post \<and> f b < f best \<and>
               (\<forall>x\<in>set pre. f b < f x) \<and> (\<forall>x\<in>set post. f b \<le> f x)))"
  using assms
proof (induction xs arbitrary: best)
  case Nil
  then show ?case by simp
next
  case (Cons x xs)
  have kx: "key x = Inr (Some (f x))" using Cons.prems by simp
  show ?case
  proof (cases "f x < f best")
    case True
    have "\<forall>y\<in>set (x # xs). key y = Inr (Some (f y))" using Cons.prems by simp
    from Cons.IH [OF this] obtain b where
      b: "min_loop key x (Some (f x)) xs = Inr b"
      and d: "(b = x \<and> (\<forall>y\<in>set xs. f x \<le> f y)) \<or>
            (\<exists>pre post. xs = pre @ b # post \<and> f b < f x \<and>
               (\<forall>y\<in>set pre. f b < f y) \<and> (\<forall>y\<in>set post. f b \<le> f y))"
      by blast
    have r: "min_loop key best (Some (f best)) (x # xs) = Inr b"
      using kx True b by simp
    from d show ?thesis
    proof
      assume "b = x \<and> (\<forall>y\<in>set xs. f x \<le> f y)"
      then have "x # xs = [] @ b # xs \<and> f b < f best \<and>
          (\<forall>y\<in>set []. f b < f y) \<and> (\<forall>y\<in>set xs. f b \<le> f y)"
        using True by simp
      then show ?thesis using r by blast
    next
      assume "\<exists>pre post. xs = pre @ b # post \<and> f b < f x \<and>
               (\<forall>y\<in>set pre. f b < f y) \<and> (\<forall>y\<in>set post. f b \<le> f y)"
      then obtain pre post where "xs = pre @ b # post" "f b < f x"
        "\<forall>y\<in>set pre. f b < f y" "\<forall>y\<in>set post. f b \<le> f y" by blast
      then have "x # xs = (x # pre) @ b # post \<and> f b < f best \<and>
          (\<forall>y\<in>set (x # pre). f b < f y) \<and> (\<forall>y\<in>set post. f b \<le> f y)"
        using True by auto
      then show ?thesis using r by blast
    qed
  next
    case False
    have "\<forall>y\<in>set (best # xs). key y = Inr (Some (f y))" using Cons.prems by simp
    from Cons.IH [OF this] obtain b where
      b: "min_loop key best (Some (f best)) xs = Inr b"
      and d: "(b = best \<and> (\<forall>y\<in>set xs. f best \<le> f y)) \<or>
            (\<exists>pre post. xs = pre @ b # post \<and> f b < f best \<and>
               (\<forall>y\<in>set pre. f b < f y) \<and> (\<forall>y\<in>set post. f b \<le> f y))"
      by blast
    have r: "min_loop key best (Some (f best)) (x # xs) = Inr b"
      using kx False b by simp
    from d show ?thesis
    proof
      assume "b = best \<and> (\<forall>y\<in>set xs. f best \<le> f y)"
      then have "b = best \<and> (\<forall>y\<in>set (x # xs). f best \<le> f y)"
        using False by auto
      then show ?thesis using r by blast
    next
      assume "\<exists>pre post. xs = pre @ b # post \<and> f b < f best \<and>
               (\<forall>y\<in>set pre. f b < f y) \<and> (\<forall>y\<in>set post. f b \<le> f y)"
      then obtain pre post where "xs = pre @ b # post" "f b < f best"
        "\<forall>y\<in>set pre. f b < f y" "\<forall>y\<in>set post. f b \<le> f y" by blast
      then have "x # xs = (x # pre) @ b # post \<and> f b < f best \<and>
          (\<forall>y\<in>set (x # pre). f b < f y) \<and> (\<forall>y\<in>set post. f b \<le> f y)"
        using False by auto
      then show ?thesis using r by blast
    qed
  qed
qed

lemma py_min_stable:
  assumes "\<forall>x\<in>set vs. key x = Inr (Some (f x))" and "vs \<noteq> []"
  shows "\<exists>pre b post. py_min key vs = Inr b \<and> vs = pre @ b # post \<and>
           (\<forall>x\<in>set pre. f b < f x) \<and> (\<forall>x\<in>set post. f b \<le> f x)"
proof (cases vs)
  case Nil
  with assms show ?thesis by simp
next
  case (Cons v ws)
  have k: "\<forall>x\<in>set (v # ws). key x = Inr (Some (f x))" using assms Cons by simp
  from min_loop_stable [OF k] obtain b where
    b: "min_loop key v (Some (f v)) ws = Inr b"
    and d: "(b = v \<and> (\<forall>y\<in>set ws. f v \<le> f y)) \<or>
          (\<exists>pre post. ws = pre @ b # post \<and> f b < f v \<and>
             (\<forall>y\<in>set pre. f b < f y) \<and> (\<forall>y\<in>set post. f b \<le> f y))"
    by blast
  have r: "py_min key vs = Inr b" using Cons k b by simp
  from d show ?thesis
  proof
    assume "b = v \<and> (\<forall>y\<in>set ws. f v \<le> f y)"
    then have "vs = [] @ b # ws \<and> (\<forall>x\<in>set []. f b < f x) \<and> (\<forall>x\<in>set ws. f b \<le> f x)"
      using Cons by simp
    then show ?thesis using r by blast
  next
    assume "\<exists>pre post. ws = pre @ b # post \<and> f b < f v \<and>
             (\<forall>y\<in>set pre. f b < f y) \<and> (\<forall>y\<in>set post. f b \<le> f y)"
    then obtain pre post where "ws = pre @ b # post" "f b < f v"
        "\<forall>y\<in>set pre. f b < f y" "\<forall>y\<in>set post. f b \<le> f y" by blast
    then have "vs = (v # pre) @ b # post \<and> (\<forall>x\<in>set (v # pre). f b < f x) \<and>
        (\<forall>x\<in>set post. f b \<le> f x)"
      using Cons by simp
    then show ?thesis using r by blast
  qed
qed

text \<open>
  When the comprehension succeeds with a non-empty list, that list is the leaderboard
  filtered in order, and the selection returns the element of it that is strictly below
  everything before it and not above anything after it: the least score, and among equal
  least scores the earliest.
\<close>

lemma best_model_stable_min:
  assumes "valid_models metric lb = Inr vs" and "vs \<noteq> []"
  shows "vs = filter (eligible metric) lb \<and>
         (\<exists>pre b post. best_model metric lb = Inr b \<and> vs = pre @ b # post \<and>
            (\<forall>m\<in>set pre. cv_of metric b < cv_of metric m) \<and>
            (\<forall>m\<in>set post. cv_of metric b \<le> cv_of metric m))"
proof -
  have f: "vs = filter (eligible metric) lb" using assms(1) by (rule valid_models_filter)
  then have "\<forall>m\<in>set vs. cv_score metric m = Inr (Some (cv_of metric m))"
    by (simp add: eligible_cv_score)
  from py_min_stable [OF this assms(2)] f assms(1) show ?thesis
    by (simp add: best_model_def)
qed

lemma best_model_returns_iff:
  "(\<exists>b. best_model metric lb = Inr b) \<longleftrightarrow>
   (\<exists>vs. valid_models metric lb = Inr vs \<and> vs \<noteq> [])"
proof
  assume "\<exists>b. best_model metric lb = Inr b"
  then show "\<exists>vs. valid_models metric lb = Inr vs \<and> vs \<noteq> []"
    by (auto simp: best_model_def split: sum.splits)
next
  assume "\<exists>vs. valid_models metric lb = Inr vs \<and> vs \<noteq> []"
  then obtain vs where "valid_models metric lb = Inr vs" "vs \<noteq> []" by blast
  from best_model_stable_min [OF this] show "\<exists>b. best_model metric lb = Inr b" by blast
qed

lemma best_model_result_eligible:
  assumes "best_model metric lb = Inr b"
  shows "b \<in> set lb \<and> eligible metric b \<and> cv_of metric b \<noteq> 0"
proof -
  from assms obtain vs where v: "valid_models metric lb = Inr vs" "vs \<noteq> []"
    using best_model_returns_iff by blast
  from best_model_stable_min [OF v] assms obtain pre post
    where "filter (eligible metric) lb = pre @ b # post"
    by auto
  then have "b \<in> set (filter (eligible metric) lb)" by simp
  then show ?thesis by (simp add: eligible_nonzero)
qed

text \<open>The specification's example: A at 0.5, B absent, C at 0.3; the selection returns C.\<close>

lemma best_model_example:
  "best_model ''RMSE''
     [mk_model ''A'' ''RMSE'' (Some 0.5), mk_model ''B'' ''RMSE'' None,
      mk_model ''C'' ''RMSE'' (Some 0.3)]
   = Inr (mk_model ''C'' ''RMSE'' (Some 0.3))"
  by (simp add: best_model_def cv_score_def mk_model_def)

subsection \<open>A score of zero is filtered out\<close>

text \<open>
  Claim C1. The selection is to keep exactly the models whose cross-validation score is
  present, a present score of 0 included, and to return the least. The condition of the
  comprehension is the score itself, and a score of zero is false as a condition: on the
  leaderboard A at 0.5, B at 0, the score of B is present and the least, B is dropped by
  the filter, and the selection returns A.
\<close>

theorem best_model_excludes_zero_score:
  "cv_score ''RMSE'' (mk_model ''B'' ''RMSE'' (Some 0)) = Inr (Some 0)
   \<and> valid_models ''RMSE''
        [mk_model ''A'' ''RMSE'' (Some 0.5), mk_model ''B'' ''RMSE'' (Some 0)]
      = Inr [mk_model ''A'' ''RMSE'' (Some 0.5)]
   \<and> best_model ''RMSE''
        [mk_model ''A'' ''RMSE'' (Some 0.5), mk_model ''B'' ''RMSE'' (Some 0)]
      = Inr (mk_model ''A'' ''RMSE'' (Some 0.5))"
  by (simp add: best_model_def cv_score_def mk_model_def)

text \<open>
  Claim C9. Among models with a present score that share the least score, the selection
  is to return the earliest of the leaderboard. On the leaderboard A at 0, B at 0, C at
  0.5, the models A and B share the least present score; both are dropped by the filter
  and the selection returns C. (For the scores that pass the filter the earliest of the
  least is returned: \<open>best_model_stable_min\<close>.)
\<close>

theorem best_model_zero_ties_skipped:
  "best_model ''RMSE''
     [mk_model ''A'' ''RMSE'' (Some 0), mk_model ''B'' ''RMSE'' (Some 0),
      mk_model ''C'' ''RMSE'' (Some 0.5)]
   = Inr (mk_model ''C'' ''RMSE'' (Some 0.5))"
  by (simp add: best_model_def cv_score_def mk_model_def)

text \<open>Ties among scores that pass the filter: A at 0.5, B at 0.3, C absent, D at 0.3.\<close>

lemma best_model_tie_example:
  "best_model ''RMSE''
     [mk_model ''A'' ''RMSE'' (Some 0.5), mk_model ''B'' ''RMSE'' (Some 0.3),
      mk_model ''C'' ''RMSE'' None, mk_model ''D'' ''RMSE'' (Some 0.3)]
   = Inr (mk_model ''B'' ''RMSE'' (Some 0.3))"
  by (simp add: best_model_def cv_score_def mk_model_def)

end
